theory Spec2Isabelle
  imports Main "HOL-Library.AList"
begin

section \<open>Request and response models\<close>

text \<open>
  The pydantic models of \<^verbatim>\<open>main.py\<close>. \<^verbatim>\<open>ChatResponse\<close> has fields called
  \<^verbatim>\<open>question_id\<close> and \<^verbatim>\<open>options\<close> as well; they carry the prefix \<open>resp_\<close> here, since
  the field names of two records of one theory must differ. An \<^verbatim>\<open>Optional\<close> field is an
  \<open>option\<close>, a \<^verbatim>\<open>Dict[str, str]\<close> is an association list in insertion order with
  distinct keys.
\<close>

record ConversationEntry =
  question_id :: string
  answer :: string

record ChatResponse =
  message :: string
  resp_question_id :: "string option"
  resp_options :: "string list option"
  conversation_history :: "ConversationEntry list"
  is_conversation_complete :: bool
  final_summary :: "(string \<times> string) list option"

text \<open>\<^verbatim>\<open>HTTPException(status_code=..., detail=...)\<close>, the only exception \<^verbatim>\<open>chat\<close> raises.\<close>

datatype HTTPException = HTTPException (status_code: nat) (detail: string)

section \<open>The question graph\<close>

text \<open>
  Every value of the \<^verbatim>\<open>QUESTIONS\<close> dictionary is a dictionary with exactly the keys
  \<^verbatim>\<open>"question"\<close>, \<^verbatim>\<open>"options"\<close> and \<^verbatim>\<open>"next_question_map"\<close>, so a value is a record
  with these three fields. The tests \<^verbatim>\<open>"next_question_map" in config\<close> of the source
  and the default of \<^verbatim>\<open>.get("options", [])\<close> are therefore decided by the data: the key
  is always there.
\<close>

record QuestionConfig =
  question :: string
  options :: "string list"
  next_question_map :: "(string \<times> string) list"

definition QUESTIONS :: "(string \<times> QuestionConfig) list" where
  "QUESTIONS =
    [(''q1_food_type'',
        \<lparr>question = ''What kind of food are you in the mood for?'',
         options = [''Italian'', ''Mexican'', ''Indian''],
         next_question_map =
           [(''Italian'', ''q2_italian_preference''),
            (''Mexican'', ''q2_mexican_spice''),
            (''Indian'', ''q2_indian_dish'')]\<rparr>),
     (''q2_italian_preference'',
        \<lparr>question = ''Do you prefer pasta or pizza?'',
         options = [''Pasta'', ''Pizza''],
         next_question_map =
           [(''Pasta'', ''q3_pasta_sauce''),
            (''Pizza'', ''q3_pizza_toppings'')]\<rparr>),
     (''q2_mexican_spice'',
        \<lparr>question = ''Do you like your Mexican food spicy or mild?'',
         options = [''Spicy'', ''Mild''],
         next_question_map =
           [(''Spicy'', ''q3_mexican_dish''),
            (''Mild'', ''q3_mexican_dish'')]\<rparr>),
     (''q2_indian_dish'',
        \<lparr>question = ''Great choice! Which Indian dish sounds good?'',
         options = [''Curry'', ''Biryani'', ''Naan with Dal''],
         next_question_map =
           [(''Curry'', ''end''),
            (''Biryani'', ''end''),
            (''Naan with Dal'', ''end'')]\<rparr>),
     (''q3_pasta_sauce'',
        \<lparr>question = ''Which pasta sauce would you prefer?'',
         options = [''Marinara'', ''Alfredo'', ''Pesto''],
         next_question_map =
           [(''Marinara'', ''end''),
            (''Alfredo'', ''end''),
            (''Pesto'', ''end'')]\<rparr>),
     (''q3_pizza_toppings'',
        \<lparr>question = ''Any specific pizza toppings in mind?'',
         options = [''Pepperoni'', ''Mushrooms'', ''Vegetables''],
         next_question_map =
           [(''Pepperoni'', ''end''),
            (''Mushrooms'', ''end''),
            (''Vegetables'', ''end'')]\<rparr>),
     (''q3_mexican_dish'',
        \<lparr>question = ''What kind of Mexican dish are you thinking of?'',
         options = [''Tacos'', ''Burritos'', ''Enchiladas''],
         next_question_map =
           [(''Tacos'', ''end''),
            (''Burritos'', ''end''),
            (''Enchiladas'', ''end'')]\<rparr>)]"

section \<open>The chat endpoint\<close>

text \<open>\<^verbatim>\<open>sep.join(xs)\<close>.\<close>

fun join :: "string \<Rightarrow> string list \<Rightarrow> string" where
  "join sep [] = []"
| "join sep [x] = x"
| "join sep (x # y # ys) = x @ sep @ join sep (y # ys)"

text \<open>The three exceptions of \<^verbatim>\<open>chat\<close>, at lines 152, 161 and 208 of the source.\<close>

definition invalid_state :: HTTPException where
  "invalid_state = HTTPException 400 ''Invalid state: Could not determine next question.''"

definition invalid_input :: "QuestionConfig \<Rightarrow> string \<Rightarrow> HTTPException" where
  "invalid_input config user_input =
     HTTPException 400
       (''Invalid input for '' @ [CHR 0x27] @ question config @ [CHR 0x27] @ '': '' @
        [CHR 0x27] @ user_input @ [CHR 0x27] @ ''. Please choose from '' @
        join '', '' (options config) @ ''.'')"

definition internal_error :: HTTPException where
  "internal_error = HTTPException 500 ''Chatbot internal error: Could not find next question.''"

text \<open>
  Lines 135 to 140: the question identifier and the answer of the last entry of the
  history, both \<^verbatim>\<open>None\<close> when the history is empty.
\<close>

definition last_question_id :: "ConversationEntry list \<Rightarrow> string option" where
  "last_question_id current_history =
     (case current_history of [] \<Rightarrow> None | _ # _ \<Rightarrow> Some (question_id (last current_history)))"

definition last_answer :: "ConversationEntry list \<Rightarrow> string option" where
  "last_answer current_history =
     (case current_history of [] \<Rightarrow> None | _ # _ \<Rightarrow> Some (answer (last current_history)))"

text \<open>
  Lines 142 to 152: the next question identifier as the history alone gives it. The
  default is the start question; the transition of the last entry replaces it when both
  strings of the last entry are true (Python's truth test of a string: it is not empty)
  and its question is in the graph, and the request is refused when that question has no
  transition for the recorded answer.
\<close>

definition next_from_history :: "ConversationEntry list \<Rightarrow> HTTPException + string option" where
  "next_from_history current_history =
     (case (last_question_id current_history, last_answer current_history) of
        (Some q, Some a) \<Rightarrow>
          (if q \<noteq> [] \<and> a \<noteq> [] then
             (case map_of QUESTIONS q of
                None \<Rightarrow> Inr (Some ''q1_food_type'')
              | Some prev_question_config \<Rightarrow>
                  (case map_of (next_question_map prev_question_config) a of
                     None \<Rightarrow> Inl invalid_state
                   | Some n \<Rightarrow> Inr (Some n)))
           else Inr (Some ''q1_food_type''))
      | _ \<Rightarrow> Inr (Some ''q1_food_type''))"

text \<open>
  Lines 154 to 181: the submitted answer. It is looked at only when the last entry's
  question identifier is true and in the graph: then it is checked against the options
  of that question and, when it is one of them, appended to the history under that
  question's identifier,
  and the next question identifier becomes the transition for it (\<^verbatim>\<open>.get\<close>, so
  \<^verbatim>\<open>None\<close> when there is none). In every other case history and next question
  identifier stay as they are. The first component of the result is the request's
  history list after the step: \<^verbatim>\<open>append\<close> changes that list in place.
\<close>

definition process_user_input ::
  "ConversationEntry list \<Rightarrow> string option \<Rightarrow> string option \<Rightarrow>
     ConversationEntry list \<times> (HTTPException + string option)" where
  "process_user_input current_history user_input next_question_id =
     (case user_input of
        None \<Rightarrow> (current_history, Inr next_question_id)
      | Some u \<Rightarrow>
          (case last_question_id current_history of
             None \<Rightarrow> (current_history, Inr next_question_id)
           | Some q \<Rightarrow>
               (case (if q \<noteq> [] then map_of QUESTIONS q else None) of
                  None \<Rightarrow> (current_history, Inr next_question_id)
                | Some config \<Rightarrow>
                    (if u \<notin> set (options config)
                     then (current_history, Inl (invalid_input config u))
                     else (current_history @ [\<lparr>question_id = q, answer = u\<rparr>],
                           Inr (map_of (next_question_map config) u))))))"

text \<open>
  Line 186: the dictionary comprehension over the history. A later entry with a key
  that is already there replaces the value and keeps the key's position.
\<close>

definition summary :: "ConversationEntry list \<Rightarrow> (string \<times> string) list" where
  "summary current_history =
     foldl (\<lambda>d entry. AList.update (question_id entry) (answer entry) d) [] current_history"

text \<open>Lines 183 to 208: the response for the next question identifier.\<close>

definition respond :: "ConversationEntry list \<Rightarrow> string option \<Rightarrow> HTTPException + ChatResponse" where
  "respond current_history next_question_id =
     (if next_question_id = Some ''end'' then
        Inr \<lparr>message = ''Thank you for your responses! Here'' @ [CHR 0x27] @
                     ''s a summary of your preferences:'',
             resp_question_id = None,
             resp_options = None,
             conversation_history = current_history,
             is_conversation_complete = True,
             final_summary = Some (summary current_history)\<rparr>
      else
        (case (case next_question_id of None \<Rightarrow> None | Some n \<Rightarrow> map_of QUESTIONS n) of
           Some next_question_config \<Rightarrow>
             Inr \<lparr>message = question next_question_config,
                  resp_question_id = next_question_id,
                  resp_options = Some (options next_question_config),
                  conversation_history = current_history,
                  is_conversation_complete = False,
                  final_summary = None\<rparr>
         | None \<Rightarrow> Inl internal_error))"

text \<open>
  The next question identifier that line 183 tests, with the history list as it is then;
  \<open>Inl\<close> when one of the two 400 exceptions was raised before.
\<close>

definition next_question ::
  "ConversationEntry list \<Rightarrow> string option \<Rightarrow>
     ConversationEntry list \<times> (HTTPException + string option)" where
  "next_question current_history user_input =
     (case next_from_history current_history of
        Inl e \<Rightarrow> (current_history, Inl e)
      | Inr next_question_id \<Rightarrow> process_user_input current_history user_input next_question_id)"

text \<open>
  The endpoint: the request's history list after the call, and the exception raised or
  the response returned.
\<close>

definition chat ::
  "ConversationEntry list \<Rightarrow> string option \<Rightarrow>
     ConversationEntry list \<times> (HTTPException + ChatResponse)" where
  "chat current_history user_input =
     (case next_question current_history user_input of
        (h, Inl e) \<Rightarrow> (h, Inl e)
      | (h, Inr next_question_id) \<Rightarrow> (h, respond h next_question_id))"

section \<open>Walks through the question graph\<close>

text \<open>
  One step of a conversation in the graph, as lines 158 to 173 take it: from a question
  of the graph, an answer that is one of its options leads to the entry of the
  question's \<^verbatim>\<open>next_question_map\<close> for that answer. There is no step from an
  identifier that is not a question (the marker \<^verbatim>\<open>end\<close> is none) and none for an
  answer that is not an option.
\<close>

definition transition :: "string \<Rightarrow> string \<Rightarrow> string option" where
  "transition q a =
     (case map_of QUESTIONS q of
        None \<Rightarrow> None
      | Some config \<Rightarrow> if a \<in> set (options config) then map_of (next_question_map config) a else None)"

text \<open>The identifier a sequence of answers leads to, \<open>None\<close> when a step is missing.\<close>

fun follow :: "string \<Rightarrow> string list \<Rightarrow> string option" where
  "follow q [] = Some q"
| "follow q (a # as) = (case transition q a of None \<Rightarrow> None | Some n \<Rightarrow> follow n as)"

text \<open>
  A ranking of the identifiers, used in the proofs only: the largest number of steps
  that are possible from a question, and 0 for every other string.
\<close>

definition depth :: "string \<Rightarrow> nat" where
  "depth q =
     (case map_of
        [(''q1_food_type'', 3::nat), (''q2_italian_preference'', 2), (''q2_mexican_spice'', 2),
         (''q2_indian_dish'', 1), (''q3_pasta_sauce'', 1), (''q3_pizza_toppings'', 1),
         (''q3_mexican_dish'', 1)] q of
        None \<Rightarrow> 0 | Some d \<Rightarrow> d)"

section \<open>Facts about the question graph\<close>

text \<open>
  The graph is a constant, so each of its properties is checked on the list itself and
  then read off for the configuration that a lookup returns.
\<close>

lemma list_all_map_of:
  "list_all (\<lambda>(k, v). P k v) xs \<Longrightarrow> map_of xs k = Some v \<Longrightarrow> P k v"
  by (auto simp: list_all_iff dest: map_of_SomeD)

lemma list_all_member:
  "list_all (\<lambda>(k, v). P k v) xs \<Longrightarrow> (k, v) \<in> set xs \<Longrightarrow> P k v"
  by (auto simp: list_all_iff)

lemma QUESTIONS_options_checked:
  "list_all (\<lambda>(q, config). set (map fst (next_question_map config)) = set (options config))
     QUESTIONS"
  by (simp add: QUESTIONS_def)

lemma QUESTIONS_targets_checked:
  "list_all (\<lambda>(q, config).
      list_all (\<lambda>(a, n). n = ''end'' \<or> map_of QUESTIONS n \<noteq> None) (next_question_map config))
     QUESTIONS"
  by (simp add: QUESTIONS_def)

lemma QUESTIONS_depth_checked:
  "list_all (\<lambda>(q, config).
      list_all (\<lambda>(a, n). depth n < depth q) (next_question_map config)) QUESTIONS"
  by (simp add: QUESTIONS_def depth_def)

lemma QUESTIONS_nonempty_checked:
  "list_all (\<lambda>(q, config). q \<noteq> [] \<and> options config \<noteq> []) QUESTIONS"
  by (simp add: QUESTIONS_def)

lemma QUESTIONS_keys_options:
  "map_of QUESTIONS q = Some config \<Longrightarrow>
     set (map fst (next_question_map config)) = set (options config)"
  by (rule list_all_map_of [OF QUESTIONS_options_checked])

lemma QUESTIONS_target:
  assumes "map_of QUESTIONS q = Some config" and "map_of (next_question_map config) a = Some n"
  shows "n = ''end'' \<or> map_of QUESTIONS n \<noteq> None"
proof -
  have "list_all (\<lambda>(a, n). n = ''end'' \<or> map_of QUESTIONS n \<noteq> None) (next_question_map config)"
    by (rule list_all_map_of [OF QUESTIONS_targets_checked assms(1)])
  then show ?thesis by (rule list_all_map_of) (rule assms(2))
qed

lemma QUESTIONS_depth:
  assumes "map_of QUESTIONS q = Some config" and "map_of (next_question_map config) a = Some n"
  shows "depth n < depth q"
proof -
  have "list_all (\<lambda>(a, n). depth n < depth q) (next_question_map config)"
    by (rule list_all_map_of [OF QUESTIONS_depth_checked assms(1)])
  then show ?thesis by (rule list_all_map_of) (rule assms(2))
qed

lemma QUESTIONS_nonempty:
  "map_of QUESTIONS q = Some config \<Longrightarrow> q \<noteq> [] \<and> options config \<noteq> []"
  by (rule list_all_map_of [OF QUESTIONS_nonempty_checked])

lemma QUESTIONS_option_transition:
  assumes "map_of QUESTIONS q = Some config" and "a \<in> set (options config)"
  shows "\<exists>n. map_of (next_question_map config) a = Some n"
proof -
  from assms have "a \<in> fst ` set (next_question_map config)"
    using QUESTIONS_keys_options [OF assms(1)] by simp
  then have "map_of (next_question_map config) a \<noteq> None"
    by (simp add: map_of_eq_None_iff)
  then show ?thesis by blast
qed

lemma depth_zero:
  "map_of QUESTIONS n \<noteq> None \<Longrightarrow> 0 < depth n"
  by (auto simp: QUESTIONS_def depth_def split: if_splits)

lemma depth_start: "depth ''q1_food_type'' = 3"
  by (simp add: depth_def)

lemma QUESTIONS_start:
  "map_of QUESTIONS ''q1_food_type'' =
     Some \<lparr>question = ''What kind of food are you in the mood for?'',
           options = [''Italian'', ''Mexican'', ''Indian''],
           next_question_map =
             [(''Italian'', ''q2_italian_preference''),
              (''Mexican'', ''q2_mexican_spice''),
              (''Indian'', ''q2_indian_dish'')]\<rparr>"
  by (simp add: QUESTIONS_def)

section \<open>The steps of the endpoint\<close>

lemma last_question_id_nonempty:
  "h \<noteq> [] \<Longrightarrow> last_question_id h = Some (question_id (last h))"
  by (cases h) (simp_all add: last_question_id_def)

lemma last_answer_nonempty:
  "h \<noteq> [] \<Longrightarrow> last_answer h = Some (answer (last h))"
  by (cases h) (simp_all add: last_answer_def)

lemma respond_start:
  "respond h (Some ''q1_food_type'') =
     Inr \<lparr>message = ''What kind of food are you in the mood for?'',
          resp_question_id = Some ''q1_food_type'',
          resp_options = Some [''Italian'', ''Mexican'', ''Indian''],
          conversation_history = h,
          is_conversation_complete = False,
          final_summary = None\<rparr>"
  by (simp add: respond_def QUESTIONS_start)

lemma respond_history:
  "respond h n = Inr r \<Longrightarrow> conversation_history r = h"
  by (auto simp: respond_def split: if_splits option.splits)

lemma respond_target:
  assumes "n = ''end'' \<or> map_of QUESTIONS n \<noteq> None"
  shows "\<exists>r. respond h (Some n) = Inr r"
  using assms by (auto simp: respond_def)

lemma respond_complete:
  "respond h n = Inr r \<Longrightarrow> is_conversation_complete r \<Longrightarrow>
     final_summary r = Some (summary h)"
  by (auto simp: respond_def split: if_splits option.splits)

lemma next_from_history_unknown:
  assumes "h \<noteq> []" and "map_of QUESTIONS (question_id (last h)) = None"
  shows "next_from_history h = Inr (Some ''q1_food_type'')"
  using assms
  by (simp add: next_from_history_def last_question_id_nonempty last_answer_nonempty)

lemma next_from_history_known:
  assumes "h \<noteq> []" and "map_of QUESTIONS (question_id (last h)) = Some config"
  shows "next_from_history h =
     (if answer (last h) = [] then Inr (Some ''q1_food_type'')
      else case map_of (next_question_map config) (answer (last h)) of
             None \<Rightarrow> Inl invalid_state | Some n \<Rightarrow> Inr (Some n))"
  using assms QUESTIONS_nonempty [OF assms(2)]
  by (simp add: next_from_history_def last_question_id_nonempty last_answer_nonempty)

lemma process_user_input_unknown:
  assumes "h \<noteq> []" and "map_of QUESTIONS (question_id (last h)) = None"
  shows "process_user_input h user_input n = (h, Inr n)"
  using assms
  by (simp add: process_user_input_def last_question_id_nonempty split: option.splits)

lemma process_user_input_known:
  assumes "h \<noteq> []" and "map_of QUESTIONS (question_id (last h)) = Some config"
  shows "process_user_input h (Some a) n =
     (if a \<notin> set (options config) then (h, Inl (invalid_input config a))
      else (h @ [\<lparr>question_id = question_id (last h), answer = a\<rparr>],
            Inr (map_of (next_question_map config) a)))"
  using assms QUESTIONS_nonempty [OF assms(2)]
  by (simp add: process_user_input_def last_question_id_nonempty)

lemma next_question_valid:
  assumes "next_question h u = (h', Inr n)"
  shows "n = Some ''end'' \<or> n = Some ''q1_food_type'' \<or> (\<exists>q. n = Some q \<and> map_of QUESTIONS q \<noteq> None)"
proof (cases "h = []")
  case True
  with assms show ?thesis
    by (cases u)
       (auto simp: next_question_def next_from_history_def process_user_input_def
          last_question_id_def last_answer_def)
next
  case False
  show ?thesis
  proof (cases "map_of QUESTIONS (question_id (last h))")
    case None
    with assms False show ?thesis
      by (simp add: next_question_def next_from_history_unknown process_user_input_unknown)
  next
    case (Some config)
    have from_history:
      "m = Some ''end'' \<or> m = Some ''q1_food_type'' \<or> (\<exists>q. m = Some q \<and> map_of QUESTIONS q \<noteq> None)"
      if m: "next_from_history h = Inr m" for m
    proof (cases "answer (last h) = []")
      case True
      with m show ?thesis by (simp add: next_from_history_known [OF False Some])
    next
      case nonempty: False
      with m obtain x where x: "map_of (next_question_map config) (answer (last h)) = Some x"
        and "m = Some x"
        by (auto simp: next_from_history_known [OF False Some] split: option.splits)
      with QUESTIONS_target [OF Some x] show ?thesis by blast
    qed
    show ?thesis
    proof (cases u)
      case None
      with assms from_history show ?thesis
        by (auto simp: next_question_def process_user_input_def split: sum.splits)
    next
      case (Some a)
      with assms have "a \<in> set (options config)" and "n = map_of (next_question_map config) a"
        by (auto simp: next_question_def process_user_input_known [OF False \<open>map_of QUESTIONS (question_id (last h)) = Some config\<close>]
              split: sum.splits if_splits)
      then show ?thesis
        using QUESTIONS_option_transition [OF \<open>map_of QUESTIONS (question_id (last h)) = Some config\<close>]
          QUESTIONS_target [OF \<open>map_of QUESTIONS (question_id (last h)) = Some config\<close>]
        by (metis)
    qed
  qed
qed

lemma next_question_error:
  assumes "next_question h u = (h', Inl e)"
  shows "e = invalid_state \<or> (\<exists>config a. u = Some a \<and> e = invalid_input config a)"
proof (cases "h = []")
  case True
  with assms show ?thesis
    by (cases u)
       (auto simp: next_question_def next_from_history_def process_user_input_def
          last_question_id_def last_answer_def)
next
  case False
  show ?thesis
  proof (cases "map_of QUESTIONS (question_id (last h))")
    case None
    with assms False show ?thesis
      by (simp add: next_question_def next_from_history_unknown process_user_input_unknown)
  next
    case (Some config)
    show ?thesis
    proof (cases u)
      case None
      with assms show ?thesis
        by (auto simp: next_question_def next_from_history_known [OF False Some]
              process_user_input_def split: sum.splits if_splits option.splits)
    next
      case (Some a)
      with assms show ?thesis
        by (auto simp: next_question_def next_from_history_known [OF False \<open>map_of QUESTIONS (question_id (last h)) = Some config\<close>]
              process_user_input_known [OF False \<open>map_of QUESTIONS (question_id (last h)) = Some config\<close>]
              split: sum.splits if_splits option.splits)
    qed
  qed
qed

section \<open>The summary dictionary\<close>

lemma update_new_key:
  "k \<notin> fst ` set al \<Longrightarrow> AList.update k v al = al @ [(k, v)]"
  by (induction al) auto

lemma foldl_update_map_of:
  "map_of (foldl (\<lambda>d entry. AList.update (question_id entry) (answer entry) d) al es) =
     map_of al ++ map_of (rev (map (\<lambda>e. (question_id e, answer e)) es))"
proof (induction es arbitrary: al)
  case Nil
  show ?case by simp
next
  case (Cons e es)
  show ?case
    by (rule ext) (simp add: Cons.IH update_conv' map_add_def split: option.splits)
qed

lemma foldl_update_keys:
  "fst ` set (foldl (\<lambda>d entry. AList.update (question_id entry) (answer entry) d) al es) =
     fst ` set al \<union> question_id ` set es"
  by (induction es arbitrary: al) (auto simp: dom_update)

lemma foldl_update_distinct:
  "distinct (map fst al) \<Longrightarrow>
     distinct (map fst (foldl (\<lambda>d entry. AList.update (question_id entry) (answer entry) d) al es))"
  by (induction es arbitrary: al) (simp_all add: distinct_update)

lemma foldl_update_fresh:
  "distinct (map question_id es) \<Longrightarrow> question_id ` set es \<inter> fst ` set al = {} \<Longrightarrow>
     foldl (\<lambda>d entry. AList.update (question_id entry) (answer entry) d) al es =
       al @ map (\<lambda>e. (question_id e, answer e)) es"
proof (induction es arbitrary: al)
  case Nil
  show ?case by simp
next
  case (Cons e es)
  from Cons.prems have fresh: "question_id e \<notin> fst ` set al" by auto
  have "question_id ` set es \<inter> fst ` set (al @ [(question_id e, answer e)]) = {}"
    using Cons.prems by auto
  with Cons.prems Cons.IH [of "al @ [(question_id e, answer e)]"] show ?case
    by (simp add: update_new_key [OF fresh])
qed

section \<open>Walks\<close>

lemma transition_step:
  assumes "transition q a = Some n"
  shows "depth n < depth q" and "n = ''end'' \<or> map_of QUESTIONS n \<noteq> None"
proof -
  from assms obtain config where config: "map_of QUESTIONS q = Some config"
    and n: "map_of (next_question_map config) a = Some n"
    by (auto simp: transition_def split: option.splits if_splits)
  show "depth n < depth q" by (rule QUESTIONS_depth [OF config n])
  show "n = ''end'' \<or> map_of QUESTIONS n \<noteq> None" by (rule QUESTIONS_target [OF config n])
qed

lemma follow_depth:
  "follow q as = Some n \<Longrightarrow> depth n + length as \<le> depth q"
proof (induction as arbitrary: q)
  case Nil
  then show ?case by simp
next
  case (Cons a as)
  then obtain m where m: "transition q a = Some m" and "follow m as = Some n"
    by (auto split: option.splits)
  with Cons.IH have "depth n + length as \<le> depth m" by blast
  with transition_step(1) [OF m] show ?case by simp
qed

lemma follow_closed:
  "follow q as = Some n \<Longrightarrow> q = ''end'' \<or> map_of QUESTIONS q \<noteq> None \<Longrightarrow>
     n = ''end'' \<or> map_of QUESTIONS n \<noteq> None"
proof (induction as arbitrary: q)
  case Nil
  then show ?case by simp
next
  case (Cons a as)
  then obtain m where m: "transition q a = Some m" and "follow m as = Some n"
    by (auto split: option.splits)
  with Cons.IH transition_step(2) [OF m] show ?case by blast
qed

lemma follow_append:
  "follow q (as @ bs) = (case follow q as of None \<Rightarrow> None | Some n \<Rightarrow> follow n bs)"
  by (induction as arbitrary: q) (auto split: option.splits)

section \<open>Progression in the middle of a conversation\<close>

text \<open>
  C1. Scenario 3 of the specification submits the answer \<^verbatim>\<open>Pizza\<close> with the history
  \<^verbatim>\<open>[{q1_food_type, Italian}]\<close> and expects the question \<^verbatim>\<open>q3_pizza_toppings\<close>
  with \<^verbatim>\<open>{q2_italian_preference, Pizza}\<close> appended to the history. The endpoint
  checks the submitted answer against the options of the last entry's question,
  \<^verbatim>\<open>q1_food_type\<close>, not against those of the question that this history leads to, and
  raises the 400 exception for an invalid input; the history stays as it was.
\<close>

theorem chat_scenario3_rejected:
  "chat [\<lparr>question_id = ''q1_food_type'', answer = ''Italian''\<rparr>] (Some ''Pizza'') =
     ([\<lparr>question_id = ''q1_food_type'', answer = ''Italian''\<rparr>],
      Inl (HTTPException 400
        (''Invalid input for '' @ [CHR 0x27] @ ''What kind of food are you in the mood for?'' @
         [CHR 0x27] @ '': '' @ [CHR 0x27] @ ''Pizza'' @ [CHR 0x27] @
         ''. Please choose from Italian, Mexican, Indian.'')))"
  by (simp add: chat_def next_question_def next_from_history_def process_user_input_def
        last_question_id_def last_answer_def respond_def
        QUESTIONS_def invalid_input_def)

section \<open>A last entry with an unknown question\<close>

text \<open>
  C2, as amended. For every non-empty history whose last entry's question identifier is
  not a key of the question graph, and for every submitted answer or none, the endpoint
  raises nothing: it returns the start question \<^verbatim>\<open>q1_food_type\<close> with its prompt and
  options, and the history as it was received.
\<close>

theorem chat_unknown_question:
  assumes "h \<noteq> []" and "map_of QUESTIONS (question_id (last h)) = None"
  shows "chat h user_input =
     (h, Inr \<lparr>message = ''What kind of food are you in the mood for?'',
              resp_question_id = Some ''q1_food_type'',
              resp_options = Some [''Italian'', ''Mexican'', ''Indian''],
              conversation_history = h,
              is_conversation_complete = False,
              final_summary = None\<rparr>)"
  by (simp add: chat_def next_question_def next_from_history_unknown [OF assms]
        process_user_input_unknown [OF assms] respond_start)

text \<open>The amended statement at a history of one entry, with no submitted answer.\<close>

theorem chat_unknown_question_witness:
  "chat [\<lparr>question_id = ''q0_drink'', answer = ''Tea''\<rparr>] None =
     ([\<lparr>question_id = ''q0_drink'', answer = ''Tea''\<rparr>],
      Inr \<lparr>message = ''What kind of food are you in the mood for?'',
              resp_question_id = Some ''q1_food_type'',
              resp_options = Some [''Italian'', ''Mexican'', ''Indian''],
              conversation_history = [\<lparr>question_id = ''q0_drink'', answer = ''Tea''\<rparr>],
              is_conversation_complete = False,
              final_summary = None\<rparr>)"
  using chat_unknown_question [of "[\<lparr>question_id = ''q0_drink'', answer = ''Tea''\<rparr>]" None]
  by (simp add: QUESTIONS_def)

text \<open>
  C2 as stated fails: \<^verbatim>\<open>q9_dessert\<close> is no key of the graph, and the endpoint answers
  with the start question instead of the 400 exception for an invalid state.
\<close>

theorem chat_unknown_question_counterexample:
  "map_of QUESTIONS ''q9_dessert'' = None \<and>
   chat [\<lparr>question_id = ''q9_dessert'', answer = ''Cake''\<rparr>] (Some ''Pie'') =
     ([\<lparr>question_id = ''q9_dessert'', answer = ''Cake''\<rparr>],
      Inr \<lparr>message = ''What kind of food are you in the mood for?'',
              resp_question_id = Some ''q1_food_type'',
              resp_options = Some [''Italian'', ''Mexican'', ''Indian''],
              conversation_history = [\<lparr>question_id = ''q9_dessert'', answer = ''Cake''\<rparr>],
              is_conversation_complete = False,
              final_summary = None\<rparr>)"
  by (simp add: chat_def next_question_def next_from_history_def process_user_input_def
        last_question_id_def last_answer_def respond_def
        QUESTIONS_def)

section \<open>The summary of a complete conversation\<close>

text \<open>
  C3, as amended. Whenever the endpoint returns a complete conversation, the summary has
  exactly one entry for each question identifier that occurs in the final history, and
  the value of an identifier is the answer of the last history entry with that
  identifier. When the question identifiers of the final history are pairwise distinct,
  the summary has exactly one entry per history entry, in the order of the history, with
  that entry's question identifier and answer.
\<close>

theorem chat_complete_summary:
  assumes "chat h u = (h', Inr r)" and "is_conversation_complete r"
  shows "\<exists>s. final_summary r = Some s \<and> distinct (map fst s) \<and>
     fst ` set s = question_id ` set (conversation_history r) \<and>
     map_of s = map_of (rev (map (\<lambda>e. (question_id e, answer e)) (conversation_history r))) \<and>
     (distinct (map question_id (conversation_history r)) \<longrightarrow>
        s = map (\<lambda>e. (question_id e, answer e)) (conversation_history r))"
proof -
  from assms(1) obtain n where r: "respond h' n = Inr r"
    by (auto simp: chat_def split: prod.splits sum.splits)
  have hist: "conversation_history r = h'"
    by (rule respond_history [OF r])
  have "final_summary r = Some (summary h')"
    by (rule respond_complete [OF r assms(2)])
  moreover have "distinct (map fst (summary h'))"
    unfolding summary_def by (rule foldl_update_distinct) simp
  moreover have "fst ` set (summary h') = question_id ` set h'"
    unfolding summary_def by (simp add: foldl_update_keys)
  moreover have "map_of (summary h') = map_of (rev (map (\<lambda>e. (question_id e, answer e)) h'))"
    unfolding summary_def by (simp add: foldl_update_map_of)
  moreover have "summary h' = map (\<lambda>e. (question_id e, answer e)) h'"
    if "distinct (map question_id h')"
    unfolding summary_def using foldl_update_fresh [OF that, of "[]"] by simp
  ultimately show ?thesis
    by (simp add: hist)
qed

text \<open>
  The amended statement at a history with two different questions: the summary has the
  two entries of the history.
\<close>

theorem chat_complete_summary_witness:
  "final_summary (projr (snd (chat [\<lparr>question_id = ''q1_food_type'', answer = ''Indian''\<rparr>,
       \<lparr>question_id = ''q2_indian_dish'', answer = ''Curry''\<rparr>] None))) =
     Some [(''q1_food_type'', ''Indian''), (''q2_indian_dish'', ''Curry'')]"
proof -
  let ?h = "[\<lparr>question_id = ''q1_food_type'', answer = ''Indian''\<rparr>,
       \<lparr>question_id = ''q2_indian_dish'', answer = ''Curry''\<rparr>]"
  have "\<exists>r. chat ?h None = (?h, Inr r) \<and> is_conversation_complete r \<and> conversation_history r = ?h"
    by (simp add: chat_def next_question_def next_from_history_def process_user_input_def
        last_question_id_def last_answer_def respond_def
          QUESTIONS_def)
  then obtain r where r: "chat ?h None = (?h, Inr r)" and complete: "is_conversation_complete r"
    and history: "conversation_history r = ?h"
    by blast
  from chat_complete_summary [OF r complete] history
  have "final_summary r = Some [(''q1_food_type'', ''Indian''), (''q2_indian_dish'', ''Curry'')]"
    by auto
  with r show ?thesis by simp
qed

text \<open>
  C3 as stated fails: a history with the same question twice is complete with a summary
  of one entry for a history of two, and the answer \<^verbatim>\<open>Curry\<close> of the first entry is
  in no summary entry.
\<close>

theorem chat_complete_summary_counterexample:
  "chat [\<lparr>question_id = ''q2_indian_dish'', answer = ''Curry''\<rparr>,
         \<lparr>question_id = ''q2_indian_dish'', answer = ''Biryani''\<rparr>] None =
     ([\<lparr>question_id = ''q2_indian_dish'', answer = ''Curry''\<rparr>,
       \<lparr>question_id = ''q2_indian_dish'', answer = ''Biryani''\<rparr>],
      Inr \<lparr>message = ''Thank you for your responses! Here'' @ [CHR 0x27] @ ''s a summary of your preferences:'',
           resp_question_id = None,
           resp_options = None,
           conversation_history =
             [\<lparr>question_id = ''q2_indian_dish'', answer = ''Curry''\<rparr>,
              \<lparr>question_id = ''q2_indian_dish'', answer = ''Biryani''\<rparr>],
           is_conversation_complete = True,
           final_summary = Some [(''q2_indian_dish'', ''Biryani'')]\<rparr>)"
  by (simp add: chat_def next_question_def next_from_history_def process_user_input_def
        last_question_id_def last_answer_def respond_def
        summary_def QUESTIONS_def)

section \<open>Validation of the submitted answer\<close>

text \<open>
  C4, as amended. For every non-empty history whose last entry's question is in the
  graph and whose last entry's answer is empty or a key of that question's transition
  map, and for every submitted answer that is not one of the options of that question,
  the endpoint raises the 400 exception for an invalid input, made of the question's
  prompt, the submitted answer and the options, and the history is unchanged.
\<close>

theorem chat_invalid_input:
  assumes "h \<noteq> []" and "map_of QUESTIONS (question_id (last h)) = Some config"
    and "answer (last h) = [] \<or> map_of (next_question_map config) (answer (last h)) \<noteq> None"
    and "a \<notin> set (options config)"
  shows "chat h (Some a) = (h, Inl (invalid_input config a))"
  using assms(3,4)
  by (auto simp: chat_def next_question_def next_from_history_known [OF assms(1,2)]
        process_user_input_known [OF assms(1,2)])

text \<open>
  The amended statement at scenario 5 of the specification: \<^verbatim>\<open>Sushi\<close> is refused, as
  it is none of the options of \<^verbatim>\<open>q1_food_type\<close>.
\<close>

theorem chat_invalid_input_witness:
  "chat [\<lparr>question_id = ''q1_food_type'', answer = ''Italian''\<rparr>] (Some ''Sushi'') =
     ([\<lparr>question_id = ''q1_food_type'', answer = ''Italian''\<rparr>],
      Inl (HTTPException 400
        (''Invalid input for '' @ [CHR 0x27] @ ''What kind of food are you in the mood for?'' @
         [CHR 0x27] @ '': '' @ [CHR 0x27] @ ''Sushi'' @ [CHR 0x27] @
         ''. Please choose from Italian, Mexican, Indian.'')))"
  using chat_invalid_input [where h = "[\<lparr>question_id = ''q1_food_type'', answer = ''Italian''\<rparr>]"
      and a = "''Sushi''" and config = "\<lparr>question = ''What kind of food are you in the mood for?'',
         options = [''Italian'', ''Mexican'', ''Indian''],
         next_question_map =
           [(''Italian'', ''q2_italian_preference''),
            (''Mexican'', ''q2_mexican_spice''),
            (''Indian'', ''q2_indian_dish'')]\<rparr>"]
  by (simp add: QUESTIONS_start invalid_input_def)

text \<open>
  C4 as stated fails: the last entry's question \<^verbatim>\<open>q2_italian_preference\<close> is in the
  graph and \<^verbatim>\<open>Sushi\<close> is none of its options, but the recorded answer \<^verbatim>\<open>Lasagna\<close>
  has no transition, and the exception for an invalid state is raised first.
\<close>

theorem chat_invalid_input_counterexample:
  "chat [\<lparr>question_id = ''q2_italian_preference'', answer = ''Lasagna''\<rparr>] (Some ''Sushi'') =
     ([\<lparr>question_id = ''q2_italian_preference'', answer = ''Lasagna''\<rparr>],
      Inl (HTTPException 400 ''Invalid state: Could not determine next question.''))"
  by (simp add: chat_def next_question_def next_from_history_def process_user_input_def
        last_question_id_def last_answer_def respond_def
        QUESTIONS_def invalid_state_def)

section \<open>Appending a valid answer\<close>

text \<open>
  C5. For every non-empty history \<open>h\<close> whose last entry's question is in the graph, and
  every submitted answer that is one of the options of that question, the history
  carried in a successful result (and the request's history list after the call) is
  \<open>h\<close> with exactly one new entry appended: the last entry's question identifier with
  the submitted answer. The call is successful whenever the last entry's answer is
  empty or has a transition; otherwise the exception for an invalid state is raised and
  there is no successful result.
\<close>

theorem chat_append_on_valid:
  assumes "h \<noteq> []" and "map_of QUESTIONS (question_id (last h)) = Some config"
    and "a \<in> set (options config)"
  shows "(\<forall>h' r. chat h (Some a) = (h', Inr r) \<longrightarrow>
            h' = h @ [\<lparr>question_id = question_id (last h), answer = a\<rparr>] \<and>
            conversation_history r = h @ [\<lparr>question_id = question_id (last h), answer = a\<rparr>])
       \<and> (answer (last h) = [] \<or> map_of (next_question_map config) (answer (last h)) \<noteq> None \<longrightarrow>
            (\<exists>r. chat h (Some a) =
                   (h @ [\<lparr>question_id = question_id (last h), answer = a\<rparr>], Inr r)))
       \<and> (answer (last h) \<noteq> [] \<and> map_of (next_question_map config) (answer (last h)) = None \<longrightarrow>
            chat h (Some a) = (h, Inl invalid_state))"
proof -
  let ?h' = "h @ [\<lparr>question_id = question_id (last h), answer = a\<rparr>]"
  obtain n where n: "map_of (next_question_map config) a = Some n"
    using QUESTIONS_option_transition [OF assms(2,3)] by blast
  have "n = ''end'' \<or> map_of QUESTIONS n \<noteq> None"
    by (rule QUESTIONS_target [OF assms(2) n])
  then obtain r where r: "respond ?h' (Some n) = Inr r"
    using respond_target by blast
  have step: "process_user_input h (Some a) m = (?h', Inr (Some n))" for m
    by (simp add: process_user_input_known [OF assms(1,2)] assms(3) n)
  show ?thesis
  proof (cases "answer (last h) = [] \<or> map_of (next_question_map config) (answer (last h)) \<noteq> None")
    case True
    then have "chat h (Some a) = (?h', Inr r)"
      by (auto simp: chat_def next_question_def next_from_history_known [OF assms(1,2)] step r)
    with True show ?thesis
      using respond_history [OF r] by auto
  next
    case False
    then have "chat h (Some a) = (h, Inl invalid_state)"
      by (auto simp: chat_def next_question_def next_from_history_known [OF assms(1,2)])
    with False show ?thesis by auto
  qed
qed

text \<open>The statement at a history of one entry and the option \<^verbatim>\<open>Mexican\<close>.\<close>

theorem chat_append_on_valid_witness:
  "fst (chat [\<lparr>question_id = ''q1_food_type'', answer = ''Italian''\<rparr>] (Some ''Mexican'')) =
     [\<lparr>question_id = ''q1_food_type'', answer = ''Italian''\<rparr>,
      \<lparr>question_id = ''q1_food_type'', answer = ''Mexican''\<rparr>]"
  using chat_append_on_valid [where h = "[\<lparr>question_id = ''q1_food_type'', answer = ''Italian''\<rparr>]"
      and a = "''Mexican''" and config = "\<lparr>question = ''What kind of food are you in the mood for?'',
         options = [''Italian'', ''Mexican'', ''Indian''],
         next_question_map =
           [(''Italian'', ''q2_italian_preference''),
            (''Mexican'', ''q2_mexican_spice''),
            (''Indian'', ''q2_indian_dish'')]\<rparr>"]
  by (auto simp: QUESTIONS_start)

section \<open>Start of a conversation\<close>

text \<open>
  C6. With an empty history the endpoint answers with the start question
  \<^verbatim>\<open>q1_food_type\<close>, its prompt and its three options, and an empty history, whether
  no answer is submitted or any answer at all: a submitted answer is ignored.
\<close>

theorem chat_start:
  "chat [] user_input =
     ([], Inr \<lparr>message = ''What kind of food are you in the mood for?'',
              resp_question_id = Some ''q1_food_type'',
              resp_options = Some [''Italian'', ''Mexican'', ''Indian''],
              conversation_history = [],
              is_conversation_complete = False,
              final_summary = None\<rparr>)"
  by (cases user_input)
     (simp_all add: chat_def next_question_def next_from_history_def process_user_input_def
        last_question_id_def last_answer_def respond_def
        QUESTIONS_def)

section \<open>A last entry without a transition\<close>

text \<open>
  C7, as amended. For every non-empty history whose last entry names a question of the
  graph and whose recorded answer is not empty and not a key of that question's
  transition map, the endpoint raises the 400 exception for an invalid state, whatever
  is submitted, and the history is unchanged.
\<close>

theorem chat_missing_transition:
  assumes "h \<noteq> []" and "map_of QUESTIONS (question_id (last h)) = Some config"
    and "answer (last h) \<noteq> []"
    and "map_of (next_question_map config) (answer (last h)) = None"
  shows "chat h user_input = (h, Inl invalid_state)"
  by (simp add: chat_def next_question_def next_from_history_known [OF assms(1,2)] assms(3,4))

text \<open>The amended statement at scenario 6 of the specification.\<close>

theorem chat_missing_transition_witness:
  "chat [\<lparr>question_id = ''q1_food_type'', answer = ''Unicorn''\<rparr>] (Some ''X'') =
     ([\<lparr>question_id = ''q1_food_type'', answer = ''Unicorn''\<rparr>],
      Inl (HTTPException 400 ''Invalid state: Could not determine next question.''))"
  using chat_missing_transition [where h = "[\<lparr>question_id = ''q1_food_type'', answer = ''Unicorn''\<rparr>]"
      and user_input = "Some ''X''" and config = "\<lparr>question = ''What kind of food are you in the mood for?'',
         options = [''Italian'', ''Mexican'', ''Indian''],
         next_question_map =
           [(''Italian'', ''q2_italian_preference''),
            (''Mexican'', ''q2_mexican_spice''),
            (''Indian'', ''q2_indian_dish'')]\<rparr>"]
  by (simp add: QUESTIONS_start invalid_state_def)

text \<open>
  C7 as stated fails: the empty string is no key of the transition map of
  \<^verbatim>\<open>q1_food_type\<close>, but an empty recorded answer is false in the test of line 145, so
  the transition is not looked up and the start question is returned.
\<close>

theorem chat_missing_transition_counterexample:
  "map_of [(''Italian'', ''q2_italian_preference''), (''Mexican'', ''q2_mexican_spice''),
           (''Indian'', ''q2_indian_dish'')] [] = (None :: string option) \<and>
   chat [\<lparr>question_id = ''q1_food_type'', answer = []\<rparr>] None =
     ([\<lparr>question_id = ''q1_food_type'', answer = []\<rparr>],
      Inr \<lparr>message = ''What kind of food are you in the mood for?'',
              resp_question_id = Some ''q1_food_type'',
              resp_options = Some [''Italian'', ''Mexican'', ''Indian''],
              conversation_history = [\<lparr>question_id = ''q1_food_type'', answer = []\<rparr>],
              is_conversation_complete = False,
              final_summary = None\<rparr>)"
  by (simp add: chat_def next_question_def next_from_history_def process_user_input_def
        last_question_id_def last_answer_def respond_def
        QUESTIONS_def)

section \<open>Well-formedness of the question graph\<close>

text \<open>
  C8. For every node of \<^verbatim>\<open>QUESTIONS\<close>, the keys of its transition map are exactly its
  option labels, and every transition target is the marker \<^verbatim>\<open>end\<close> or the identifier
  of a question of the graph.
\<close>

theorem QUESTIONS_well_formed:
  assumes "(q, config) \<in> set QUESTIONS"
  shows "fst ` set (next_question_map config) = set (options config) \<and>
         (\<forall>n \<in> snd ` set (next_question_map config). n = ''end'' \<or> n \<in> fst ` set QUESTIONS)"
proof (intro conjI ballI)
  have "set (map fst (next_question_map config)) = set (options config)"
    by (rule list_all_member [OF QUESTIONS_options_checked assms])
  then show "fst ` set (next_question_map config) = set (options config)"
    by simp
next
  fix n assume "n \<in> snd ` set (next_question_map config)"
  then obtain a where member: "(a, n) \<in> set (next_question_map config)"
    by (auto simp: image_iff)
  have "list_all (\<lambda>(a, n). n = ''end'' \<or> map_of QUESTIONS n \<noteq> None) (next_question_map config)"
    by (rule list_all_member [OF QUESTIONS_targets_checked assms])
  then have "n = ''end'' \<or> map_of QUESTIONS n \<noteq> None"
    by (rule list_all_member) (rule member)
  then show "n = ''end'' \<or> n \<in> fst ` set QUESTIONS"
    by (simp add: map_of_eq_None_iff)
qed

text \<open>The statement at the node \<^verbatim>\<open>q2_italian_preference\<close>.\<close>

theorem QUESTIONS_well_formed_witness:
  "fst ` set (next_question_map
       \<lparr>question = ''Do you prefer pasta or pizza?'',
        options = [''Pasta'', ''Pizza''],
        next_question_map =
          [(''Pasta'', ''q3_pasta_sauce''), (''Pizza'', ''q3_pizza_toppings'')]\<rparr>) =
     {''Pasta'', ''Pizza''}
   \<and> ''q3_pizza_toppings'' \<in> fst ` set QUESTIONS"
proof -
  have "(''q2_italian_preference'',
       \<lparr>question = ''Do you prefer pasta or pizza?'',
        options = [''Pasta'', ''Pizza''],
        next_question_map =
          [(''Pasta'', ''q3_pasta_sauce''), (''Pizza'', ''q3_pizza_toppings'')]\<rparr>)
      \<in> set QUESTIONS"
    by (simp add: QUESTIONS_def)
  from QUESTIONS_well_formed [OF this] show ?thesis by simp
qed

section \<open>Every walk from the start question ends\<close>

text \<open>
  C9. Every walk that starts at \<^verbatim>\<open>q1_food_type\<close> and follows valid options has at
  most three steps, and after three steps it is at \<^verbatim>\<open>end\<close>. A walk that is not at
  \<^verbatim>\<open>end\<close> is at a question of the graph that has options, and it can take every one
  of them; so a walk that cannot be continued is at \<^verbatim>\<open>end\<close>. No identifier that a
  walk reaches lies on a cycle.
\<close>

theorem terminal_reachability:
  assumes "follow ''q1_food_type'' as = Some n"
  shows "length as \<le> 3 \<and> (length as = 3 \<longrightarrow> n = ''end'')
     \<and> (n \<noteq> ''end'' \<longrightarrow>
          (\<exists>config. map_of QUESTIONS n = Some config \<and> options config \<noteq> [] \<and>
             (\<forall>a \<in> set (options config). follow ''q1_food_type'' (as @ [a]) \<noteq> None)))
     \<and> (\<forall>bs. follow n bs = Some n \<longrightarrow> bs = [])"
proof -
  have bound: "depth n + length as \<le> 3"
    using follow_depth [OF assms] by (simp add: depth_start)
  have closed: "n = ''end'' \<or> map_of QUESTIONS n \<noteq> None"
    by (rule follow_closed [OF assms]) (simp add: QUESTIONS_start)
  have "n = ''end''" if "length as = 3"
  proof -
    from bound that have "depth n = 0" by simp
    with closed depth_zero [of n] show ?thesis by auto
  qed
  moreover have "\<exists>config. map_of QUESTIONS n = Some config \<and> options config \<noteq> [] \<and>
             (\<forall>a \<in> set (options config). follow ''q1_food_type'' (as @ [a]) \<noteq> None)"
    if "n \<noteq> ''end''"
  proof -
    from closed that obtain config where config: "map_of QUESTIONS n = Some config" by auto
    have "follow ''q1_food_type'' (as @ [a]) \<noteq> None" if "a \<in> set (options config)" for a
      using QUESTIONS_option_transition [OF config that] that
      by (auto simp: follow_append assms transition_def config)
    with config QUESTIONS_nonempty [OF config] show ?thesis by blast
  qed
  moreover have "bs = []" if "follow n bs = Some n" for bs
    using follow_depth [OF that] by simp
  ultimately show ?thesis using bound by auto
qed

text \<open>The statement at the walk of one step with the answer \<^verbatim>\<open>Italian\<close>.\<close>

theorem terminal_reachability_witness:
  "follow ''q1_food_type'' ([''Italian''] @ [''Pizza'']) \<noteq> None
   \<and> length [''Italian''] \<le> (3::nat)"
proof -
  have walk: "follow ''q1_food_type'' [''Italian''] = Some ''q2_italian_preference''"
    by (simp add: transition_def QUESTIONS_def)
  have "map_of QUESTIONS ''q2_italian_preference'' =
     Some \<lparr>question = ''Do you prefer pasta or pizza?'',
           options = [''Pasta'', ''Pizza''],
           next_question_map =
             [(''Pasta'', ''q3_pasta_sauce''), (''Pizza'', ''q3_pizza_toppings'')]\<rparr>"
    by (simp add: QUESTIONS_def)
  with terminal_reachability [OF walk] show ?thesis by auto
qed

section \<open>The internal error is never raised\<close>

text \<open>
  C10. For every history and every submitted answer or none, the next question
  identifier that the endpoint computes is \<^verbatim>\<open>end\<close>, the start identifier
  \<^verbatim>\<open>q1_food_type\<close> or a key of \<^verbatim>\<open>QUESTIONS\<close>. So the 500 exception is never raised:
  the endpoint returns a complete conversation, or a question of the graph with its
  prompt and options, or raises the exception for an invalid input or the one for an
  invalid state.
\<close>

theorem chat_no_internal_error:
  "(\<forall>h' n. next_question h u = (h', Inr n) \<longrightarrow>
       n = Some ''end'' \<or> n = Some ''q1_food_type'' \<or>
       (\<exists>q. n = Some q \<and> map_of QUESTIONS q \<noteq> None))
   \<and> snd (chat h u) \<noteq> Inl internal_error
   \<and> ((\<exists>r. snd (chat h u) = Inr r \<and> is_conversation_complete r)
      \<or> (\<exists>r q config. snd (chat h u) = Inr r \<and> \<not> is_conversation_complete r \<and>
            resp_question_id r = Some q \<and> map_of QUESTIONS q = Some config \<and>
            message r = question config \<and> resp_options r = Some (options config))
      \<or> (\<exists>config a. u = Some a \<and> snd (chat h u) = Inl (invalid_input config a))
      \<or> snd (chat h u) = Inl invalid_state)"
proof -
  obtain h' res where nq: "next_question h u = (h', res)"
    by (cases "next_question h u")
  show ?thesis
  proof (cases res)
    case (Inl e)
    with nq have chat: "chat h u = (h', Inl e)"
      by (simp add: chat_def)
    from nq Inl have "e = invalid_state \<or> (\<exists>config a. u = Some a \<and> e = invalid_input config a)"
      using next_question_error by blast
    moreover have "invalid_state \<noteq> internal_error"
      by (simp add: invalid_state_def internal_error_def)
    moreover have "invalid_input config a \<noteq> internal_error" for config a
      by (simp add: invalid_input_def internal_error_def)
    ultimately show ?thesis
      using nq Inl chat by auto
  next
    case (Inr n)
    with nq have chat: "chat h u = (h', respond h' n)"
      by (simp add: chat_def)
    from nq Inr have valid: "n = Some ''end'' \<or> n = Some ''q1_food_type'' \<or>
        (\<exists>q. n = Some q \<and> map_of QUESTIONS q \<noteq> None)"
      using next_question_valid by blast
    have "(\<exists>r. respond h' n = Inr r \<and> is_conversation_complete r)
      \<or> (\<exists>r q config. respond h' n = Inr r \<and> \<not> is_conversation_complete r \<and>
            resp_question_id r = Some q \<and> map_of QUESTIONS q = Some config \<and>
            message r = question config \<and> resp_options r = Some (options config))"
      using valid by (auto simp: respond_def QUESTIONS_start)
    then show ?thesis
      using nq Inr chat valid by auto
  qed
qed

text \<open>The statement at a history of one entry and a valid answer.\<close>

theorem chat_no_internal_error_witness:
  "snd (chat [\<lparr>question_id = ''q1_food_type'', answer = ''Italian''\<rparr>] (Some ''Italian'')) \<noteq> Inl internal_error"
  using chat_no_internal_error [of "[\<lparr>question_id = ''q1_food_type'', answer = ''Italian''\<rparr>]" "Some ''Italian''"]
  by blast

end
